theory Spec2Isabelle
  imports Complex_Main "HOL-Library.Word" "HOL-Library.Multiset"
begin

section \<open>Data model\<close>

text \<open>
  The subscriber benchmark is a Go program. Its \<^verbatim>\<open>int64\<close> values are 64-bit words:
  \<open>+\<close> and \<open>-\<close> wrap around, and the signed comparisons of the source are written
  \<open>sint a < sint b\<close>. Go's platform \<^verbatim>\<open>int\<close> (worker ids, the number of clients, the
  sample size) is only ever counted up from zero or compared, and is an \<open>int\<close> here.

  A \<^verbatim>\<open>float64\<close> is a value of a type \<open>'f\<close> that is kept abstract: the program needs
  its zero value and its comparison (\<open>'f :: {zero, linorder}\<close>, so the not-a-number value,
  which compares false with everything, is outside the model), and every arithmetic
  operation on it is an operation of the record \<open>lib\<close> below.
\<close>

type_synonym int64 = "64 word"

text \<open>The records of the main file: \<^verbatim>\<open>Payload\<close>, \<^verbatim>\<open>Message\<close>, \<^verbatim>\<open>RunResults\<close>.\<close>

record Payload =
  GeneratedAt :: int64
  ClientId :: int
  MessageId :: int

record Message =
  Payload :: Payload
  ReceivedAt :: int64

record 'f RunResults =
  ID :: int
  Successes :: int64
  RunTime :: 'f
  MsgTimeMin :: 'f
  MsgTimeMax :: 'f
  MsgTimeMean :: 'f
  MsgTimeStd :: 'f
  MsgsPerSec :: 'f
  Duplicates :: int64

text \<open>
  \<^verbatim>\<open>TotalResults\<close> shares four field names with \<^verbatim>\<open>RunResults\<close>; the selectors of the
  two records are told apart by their qualified names (\<open>RunResults.Successes\<close>,
  \<open>TotalResults.Successes\<close>).
\<close>

record 'f TotalResults =
  Ratio :: 'f
  Successes :: int64
  TotalRunTime :: 'f
  AvgRunTime :: 'f
  MsgTimeMin :: 'f
  MsgTimeMax :: 'f
  MsgTimeMeanAvg :: 'f
  MsgTimeMeanStd :: 'f
  TotalMsgsPerSec :: 'f
  AvgMsgsPerSec :: 'f
  Duplicates :: int64

text \<open>
  The fields of \<^verbatim>\<open>Client\<close> that the measurement code reads. The connection parameters
  (\<^verbatim>\<open>BrokerURL\<close>, \<^verbatim>\<open>BrokerUser\<close>, \<^verbatim>\<open>BrokerPass\<close>, \<^verbatim>\<open>TLSConfig\<close>) only reach the MQTT
  library and are left out, and so is \<^verbatim>\<open>WaitTimeout\<close>, which no code reads.
\<close>

record Client =
  ID :: int
  ClientID :: string
  MsgTopic :: string
  ReceiveCount :: int64
  MsgQoS :: "8 word"
  Quiet :: bool

text \<open>
  What the program takes from outside the repository: the float64 arithmetic of the Go
  runtime, \<^verbatim>\<open>time.Duration.Seconds\<close>, the four functions of the GoStats package and
  \<^verbatim>\<open>json.Unmarshal\<close> at type \<^verbatim>\<open>Payload\<close>. They are parameters of the model; nothing
  is assumed about them.
\<close>

record 'f lib =
  float64 :: "int \<Rightarrow> 'f"
  fadd :: "'f \<Rightarrow> 'f \<Rightarrow> 'f"
  fdiv :: "'f \<Rightarrow> 'f \<Rightarrow> 'f"
  Seconds :: "int64 \<Rightarrow> 'f"
  StatsMin :: "'f list \<Rightarrow> 'f"
  StatsMax :: "'f list \<Rightarrow> 'f"
  StatsMean :: "'f list \<Rightarrow> 'f"
  StatsSampleStandardDeviation :: "'f list \<Rightarrow> 'f"
  Unmarshal :: "8 word list \<Rightarrow> string + Payload"

text \<open>The run-time panics of the Go code that the model keeps as values.\<close>

datatype panic = IndexOutOfRange | NilDereference | MakeSliceLenOutOfRange

section \<open>The aggregator: \<^verbatim>\<open>calculateTotalResults\<close>\<close>

text \<open>
  The local variables of \<^verbatim>\<open>calculateTotalResults\<close>: the record under construction and
  the four arrays made with \<^verbatim>\<open>make([]float64, len(results))\<close>.
\<close>

record 'f accum =
  totals :: "'f TotalResults"
  msgTimeMeans :: "'f list"
  msgsPerSecs :: "'f list"
  runTimes :: "'f list"
  bws :: "'f list"

text \<open>\<^verbatim>\<open>new(TotalResults)\<close>: every field holds the zero value of its type.\<close>

definition new_TotalResults :: "'f::{zero,linorder} TotalResults" where
  "new_TotalResults =
     \<lparr>Ratio = 0, Successes = 0, TotalRunTime = 0, AvgRunTime = 0, MsgTimeMin = 0,
      MsgTimeMax = 0, MsgTimeMeanAvg = 0, MsgTimeMeanStd = 0, TotalMsgsPerSec = 0,
      AvgMsgsPerSec = 0, Duplicates = 0\<rparr>"

text \<open>
  One iteration of \<^verbatim>\<open>for i, res := range results\<close> (lines 141 to 158). The index \<open>i\<close>
  is below \<^verbatim>\<open>len(results)\<close>, the length of the four arrays, so the writes are in range.
\<close>

definition range_body ::
  "'f::{zero,linorder} lib \<Rightarrow> nat \<Rightarrow> 'f RunResults \<Rightarrow> 'f accum \<Rightarrow> 'f accum" where
  "range_body L i res a =
     (let t = totals a;
          t = t\<lparr>TotalResults.Successes := TotalResults.Successes t + RunResults.Successes res\<rparr>;
          t = t\<lparr>TotalMsgsPerSec := fadd L (TotalMsgsPerSec t) (MsgsPerSec res)\<rparr>;
          t = t\<lparr>TotalResults.Duplicates :=
                  TotalResults.Duplicates t + RunResults.Duplicates res\<rparr>;
          t = (if RunResults.MsgTimeMin res < TotalResults.MsgTimeMin t
               then t\<lparr>TotalResults.MsgTimeMin := RunResults.MsgTimeMin res\<rparr> else t);
          t = (if RunResults.MsgTimeMax res > TotalResults.MsgTimeMax t
               then t\<lparr>TotalResults.MsgTimeMax := RunResults.MsgTimeMax res\<rparr> else t)
      in a\<lparr>totals := t,
            msgTimeMeans := (msgTimeMeans a)[i := MsgTimeMean res],
            msgsPerSecs := (msgsPerSecs a)[i := MsgsPerSec res],
            runTimes := (runTimes a)[i := RunTime res],
            bws := (bws a)[i := MsgsPerSec res]\<rparr>)"

fun range_results ::
  "'f::{zero,linorder} lib \<Rightarrow> nat \<Rightarrow> 'f RunResults list \<Rightarrow> 'f accum \<Rightarrow> 'f accum" where
  "range_results L i [] a = a"
| "range_results L i (res # rest) a = range_results L (Suc i) rest (range_body L i res a)"

text \<open>
  \<^verbatim>\<open>calculateTotalResults\<close> on the worker results its pointers lead to. On an empty slice
  \<^verbatim>\<open>results[0]\<close> panics.
\<close>

definition calculateTotalResults ::
  "'f::{zero,linorder} lib \<Rightarrow> 'f RunResults list \<Rightarrow> int64 \<Rightarrow> int \<Rightarrow> panic + 'f TotalResults" where
  "calculateTotalResults L results totalTime sampleSize =
     (let t = new_TotalResults\<lparr>TotalRunTime := Seconds L totalTime\<rparr>;
          zeros = replicate (length results) 0
      in case results of
           [] \<Rightarrow> Inl IndexOutOfRange
         | r0 # _ \<Rightarrow>
             (let t = t\<lparr>TotalResults.MsgTimeMin := RunResults.MsgTimeMin r0\<rparr>;
                  a = range_results L 0 results
                        \<lparr>totals = t, msgTimeMeans = zeros, msgsPerSecs = zeros,
                         runTimes = zeros, bws = zeros\<rparr>;
                  t = totals a;
                  t = t\<lparr>AvgMsgsPerSec := StatsMean L (msgsPerSecs a)\<rparr>;
                  t = t\<lparr>AvgRunTime := StatsMean L (runTimes a)\<rparr>;
                  t = t\<lparr>MsgTimeMeanAvg := StatsMean L (msgTimeMeans a)\<rparr>;
                  t = (if sampleSize > 1
                       then t\<lparr>MsgTimeMeanStd :=
                                StatsSampleStandardDeviation L (msgTimeMeans a)\<rparr>
                       else t)
              in Inr t))"

section \<open>The aggregator on the heap\<close>

text \<open>
  The Go function takes \<^verbatim>\<open>[]*RunResults\<close>, a slice of pointers, and returns a pointer to
  the record it allocates. To say what it reads and writes, the same statements are
  given once more on a heap: the list of the objects allocated so far, an address being
  an index into it. \<^verbatim>\<open>new\<close> appends an object; a field assignment through a pointer
  replaces the object at its address.
\<close>

datatype 'f obj = RunResultsObj "'f RunResults" | TotalResultsObj "'f TotalResults"

type_synonym 'f heap = "'f obj list"

text \<open>
  Besides the panics of Go there is one more way for the heap function to stop: a
  pointer that leads to no object of its type. Go's type system excludes it; the
  model keeps it as an outcome, so that the function is defined on every heap.
\<close>

datatype fault = GoPanic panic | BadPointer

text \<open>Reading through a \<^verbatim>\<open>*RunResults\<close>, which may be \<^verbatim>\<open>nil\<close>, and through a \<^verbatim>\<open>*TotalResults\<close>.\<close>

definition read_RunResults :: "'f heap \<Rightarrow> nat option \<Rightarrow> fault + 'f RunResults" where
  "read_RunResults h p =
     (case p of
        None \<Rightarrow> Inl (GoPanic NilDereference)
      | Some a \<Rightarrow>
          (if a < length h
           then (case h ! a of RunResultsObj r \<Rightarrow> Inr r | TotalResultsObj t \<Rightarrow> Inl BadPointer)
           else Inl BadPointer))"

definition read_TotalResults :: "'f heap \<Rightarrow> nat \<Rightarrow> fault + 'f TotalResults" where
  "read_TotalResults h a =
     (if a < length h
      then (case h ! a of TotalResultsObj t \<Rightarrow> Inr t | RunResultsObj r \<Rightarrow> Inl BadPointer)
      else Inl BadPointer)"

text \<open>
  The four arrays of \<^verbatim>\<open>calculateTotalResults\<close> are local and no pointer to them leaves
  the function: they stay values, in the order \<^verbatim>\<open>msgTimeMeans\<close>, \<^verbatim>\<open>msgsPerSecs\<close>,
  \<^verbatim>\<open>runTimes\<close>, \<^verbatim>\<open>bws\<close>, beside the heap.
\<close>

type_synonym 'f slices = "'f list \<times> 'f list \<times> 'f list \<times> 'f list"

type_synonym 'f machine = "'f heap \<times> 'f slices"

text \<open>
  A statement is a function on the machine state that may stop with a fault.
  \<open>assign ptr f\<close> is an assignment to fields of the record behind \<open>ptr\<close>: it reads the
  record, changes it by \<open>f\<close> and writes it back. \<open>reading res k\<close> reads the worker result
  behind \<open>res\<close> for the statement \<open>k\<close>. \<open>seq\<close> runs statements one after the other.
\<close>

definition assign ::
  "nat \<Rightarrow> ('f TotalResults \<Rightarrow> 'f TotalResults) \<Rightarrow> 'f machine \<Rightarrow> fault + 'f machine" where
  "assign ptr f s =
     (case read_TotalResults (fst s) ptr of
        Inl e \<Rightarrow> Inl e
      | Inr t \<Rightarrow> Inr ((fst s)[ptr := TotalResultsObj (f t)], snd s))"

definition reading ::
  "nat option \<Rightarrow> ('f RunResults \<Rightarrow> 'f machine \<Rightarrow> fault + 'f machine)
     \<Rightarrow> 'f machine \<Rightarrow> fault + 'f machine" where
  "reading res k s =
     (case read_RunResults (fst s) res of Inl e \<Rightarrow> Inl e | Inr r \<Rightarrow> k r s)"

fun seq :: "('s \<Rightarrow> fault + 's) list \<Rightarrow> 's \<Rightarrow> fault + 's" where
  "seq [] s = Inr s"
| "seq (c # cs) s = (case c s of Inl e \<Rightarrow> Inl e | Inr s' \<Rightarrow> seq cs s')"

text \<open>
  The statements of one iteration of the range loop, lines 142 to 157, each reading
  \<^verbatim>\<open>res\<close> and \<^verbatim>\<open>totals\<close> through their pointers; \<open>ptr\<close> is the pointer \<^verbatim>\<open>totals\<close>.
\<close>

definition range_statements ::
  "'f::{zero,linorder} lib \<Rightarrow> nat \<Rightarrow> nat \<Rightarrow> nat option
     \<Rightarrow> ('f machine \<Rightarrow> fault + 'f machine) list" where
  "range_statements L ptr i res =
     [reading res (\<lambda>r. assign ptr (\<lambda>t.
        t\<lparr>TotalResults.Successes := TotalResults.Successes t + RunResults.Successes r\<rparr>)),
      reading res (\<lambda>r. assign ptr (\<lambda>t.
        t\<lparr>TotalMsgsPerSec := fadd L (TotalMsgsPerSec t) (MsgsPerSec r)\<rparr>)),
      reading res (\<lambda>r. assign ptr (\<lambda>t.
        t\<lparr>TotalResults.Duplicates := TotalResults.Duplicates t + RunResults.Duplicates r\<rparr>)),
      reading res (\<lambda>r. assign ptr (\<lambda>t.
        if RunResults.MsgTimeMin r < TotalResults.MsgTimeMin t
        then t\<lparr>TotalResults.MsgTimeMin := RunResults.MsgTimeMin r\<rparr> else t)),
      reading res (\<lambda>r. assign ptr (\<lambda>t.
        if RunResults.MsgTimeMax r > TotalResults.MsgTimeMax t
        then t\<lparr>TotalResults.MsgTimeMax := RunResults.MsgTimeMax r\<rparr> else t)),
      reading res (\<lambda>r (h, msgTimeMeans, msgsPerSecs, runTimes, bws).
        Inr (h, msgTimeMeans[i := MsgTimeMean r], msgsPerSecs, runTimes, bws)),
      reading res (\<lambda>r (h, msgTimeMeans, msgsPerSecs, runTimes, bws).
        Inr (h, msgTimeMeans, msgsPerSecs[i := MsgsPerSec r], runTimes, bws)),
      reading res (\<lambda>r (h, msgTimeMeans, msgsPerSecs, runTimes, bws).
        Inr (h, msgTimeMeans, msgsPerSecs, runTimes[i := RunTime r], bws)),
      reading res (\<lambda>r (h, msgTimeMeans, msgsPerSecs, runTimes, bws).
        Inr (h, msgTimeMeans, msgsPerSecs, runTimes, bws[i := MsgsPerSec r]))]"

fun range_heap ::
  "'f::{zero,linorder} lib \<Rightarrow> nat \<Rightarrow> nat \<Rightarrow> nat option list \<Rightarrow> 'f machine
     \<Rightarrow> fault + 'f machine" where
  "range_heap L ptr i [] s = Inr s"
| "range_heap L ptr i (res # rest) s =
     (case seq (range_statements L ptr i res) s of
        Inl e \<Rightarrow> Inl e
      | Inr s' \<Rightarrow> range_heap L ptr (Suc i) rest s')"

text \<open>
  \<^verbatim>\<open>calculateTotalResults\<close> on a heap: \<^verbatim>\<open>new(TotalResults)\<close> allocates the record at the
  next free address, the statements of lines 133 to 165 follow, and the function
  returns the pointer with the heap it leaves.
\<close>

definition calculateTotalResults_heap ::
  "'f::{zero,linorder} lib \<Rightarrow> 'f heap \<Rightarrow> nat option list \<Rightarrow> int64 \<Rightarrow> int
     \<Rightarrow> fault + nat \<times> 'f heap" where
  "calculateTotalResults_heap L h results totalTime sampleSize =
     (let ptr = length h;
          zeros = replicate (length results) 0
      in case seq
           [assign ptr (\<lambda>t. t\<lparr>TotalRunTime := Seconds L totalTime\<rparr>),
            (\<lambda>s. case results of
                   [] \<Rightarrow> Inl (GoPanic IndexOutOfRange)
                 | res0 # _ \<Rightarrow>
                     reading res0 (\<lambda>r. assign ptr (\<lambda>t.
                       t\<lparr>TotalResults.MsgTimeMin := RunResults.MsgTimeMin r\<rparr>)) s),
            range_heap L ptr 0 results,
            (\<lambda>(h, msgTimeMeans, msgsPerSecs, runTimes, bws).
               assign ptr (\<lambda>t. t\<lparr>AvgMsgsPerSec := StatsMean L msgsPerSecs\<rparr>)
                 (h, msgTimeMeans, msgsPerSecs, runTimes, bws)),
            (\<lambda>(h, msgTimeMeans, msgsPerSecs, runTimes, bws).
               assign ptr (\<lambda>t. t\<lparr>AvgRunTime := StatsMean L runTimes\<rparr>)
                 (h, msgTimeMeans, msgsPerSecs, runTimes, bws)),
            (\<lambda>(h, msgTimeMeans, msgsPerSecs, runTimes, bws).
               assign ptr (\<lambda>t. t\<lparr>MsgTimeMeanAvg := StatsMean L msgTimeMeans\<rparr>)
                 (h, msgTimeMeans, msgsPerSecs, runTimes, bws)),
            (\<lambda>(h, msgTimeMeans, msgsPerSecs, runTimes, bws).
               if sampleSize > 1
               then assign ptr
                      (\<lambda>t. t\<lparr>MsgTimeMeanStd := StatsSampleStandardDeviation L msgTimeMeans\<rparr>)
                      (h, msgTimeMeans, msgsPerSecs, runTimes, bws)
               else Inr (h, msgTimeMeans, msgsPerSecs, runTimes, bws))]
           (h @ [TotalResultsObj new_TotalResults], zeros, zeros, zeros, zeros)
         of
           Inl e \<Rightarrow> Inl e
         | Inr s \<Rightarrow> Inr (ptr, fst s))"

text \<open>The worker results behind the pointers of a slice, read in order.\<close>

fun deref_all :: "'f heap \<Rightarrow> nat option list \<Rightarrow> fault + 'f RunResults list" where
  "deref_all h [] = Inr []"
| "deref_all h (p # ps) =
     (case read_RunResults h p of
        Inl e \<Rightarrow> Inl e
      | Inr r \<Rightarrow> (case deref_all h ps of Inl e \<Rightarrow> Inl e | Inr rs \<Rightarrow> Inr (r # rs)))"


section \<open>The worker: \<^verbatim>\<open>Client.Run\<close>\<close>

text \<open>
  What the worker writes with \<^verbatim>\<open>log.Printf\<close>: line 49 (a message beyond the expected
  count), line 62 (progress) and line 104 (a payload that is not JSON).
\<close>

datatype log_entry =
    TooManyMessages int Message
  | Progress int int64 int64
  | UnmarshalFailed int string

text \<open>
  The local variables of \<^verbatim>\<open>Run\<close> that its loop changes: the slot array (a slot is
  \<^verbatim>\<open>nil\<close> until a message is stored), the counter, and the lines logged so far.
\<close>

record loop_state =
  receivedMessages :: "Message option list"
  receivedSoFar :: int64
  logged :: "log_entry list"

text \<open>
  A goroutine that receives from a channel either waits forever on a channel that
  delivers nothing more (\<open>Blocks\<close>, with the state it waits in), panics, or returns.
\<close>

datatype ('s, 'a) outcome = Blocks 's | Panics panic | Returns 'a

text \<open>
  Lines 46 to 52: store the message while the counter is below \<^verbatim>\<open>ReceiveCount\<close>, log
  it otherwise, and count it in both cases. The slice index is checked as Go checks it.
\<close>

definition capture :: "Client \<Rightarrow> loop_state \<Rightarrow> Message \<Rightarrow> panic + loop_state" where
  "capture c st m =
     (let n = receivedSoFar st
      in if sint n < sint (ReceiveCount c)
         then (if 0 \<le> sint n \<and> nat (sint n) < length (receivedMessages st)
               then Inr (st\<lparr>receivedMessages := (receivedMessages st)[nat (sint n) := Some m],
                            receivedSoFar := n + 1\<rparr>)
               else Inl IndexOutOfRange)
         else Inr (st\<lparr>logged := logged st @ [TooManyMessages (ID c) m],
                      receivedSoFar := n + 1\<rparr>))"

text \<open>
  Lines 61 to 63. Go's \<^verbatim>\<open>%\<close> truncates towards zero and HOL's \<open>mod\<close> rounds down;
  both are zero exactly when 100 divides the counter.
\<close>

definition progress :: "Client \<Rightarrow> loop_state \<Rightarrow> loop_state" where
  "progress c st =
     (if sint (receivedSoFar st) mod 100 = 0
      then st\<lparr>logged := logged st @ [Progress (ID c) (receivedSoFar st) (ReceiveCount c)]\<rparr>
      else st)"

text \<open>
  Lines 67 to 70: one latency per slot, \<^verbatim>\<open>float64(message.ReceivedAt -
  message.Payload.GeneratedAt)\<close>, the subtraction in \<^verbatim>\<open>int64\<close>. Reading a field of a
  \<^verbatim>\<open>nil\<close> slot panics.
\<close>

definition latency :: "'f lib \<Rightarrow> Message \<Rightarrow> 'f" where
  "latency L message = float64 L (sint (ReceivedAt message - GeneratedAt (Payload message)))"

fun latencies :: "'f lib \<Rightarrow> Message option list \<Rightarrow> panic + 'f list" where
  "latencies L [] = Inr []"
| "latencies L (None # slots) = Inl NilDereference"
| "latencies L (Some message # slots) =
     (case latencies L slots of
        Inl e \<Rightarrow> Inl e
      | Inr ls \<Rightarrow> Inr (latency L message # ls))"

text \<open>
  Lines 72 to 83: the result record. \<open>duration\<close> is what \<^verbatim>\<open>time.Since(*started)\<close>
  reads on the wall clock at that moment (\<^verbatim>\<open>started\<close> was set in the first iteration);
  it is an input of the model. \<^verbatim>\<open>MsgTimeStd\<close> keeps the zero value of
  \<^verbatim>\<open>new(RunResults)\<close> unless \<^verbatim>\<open>ReceiveCount > 1\<close>.
\<close>

definition report ::
  "'f::{zero,linorder} lib \<Rightarrow> Client \<Rightarrow> int64 \<Rightarrow> loop_state \<Rightarrow> panic + 'f RunResults" where
  "report L c duration st =
     (case latencies L (receivedMessages st) of
        Inl e \<Rightarrow> Inl e
      | Inr ls \<Rightarrow>
          (let successes = (word_of_nat (length (receivedMessages st)) :: int64)
           in Inr \<lparr>RunResults.ID = ID c,
                   RunResults.Successes = successes,
                   RunTime = Seconds L duration,
                   RunResults.MsgTimeMin = StatsMin L ls,
                   RunResults.MsgTimeMax = StatsMax L ls,
                   MsgTimeMean = StatsMean L ls,
                   MsgTimeStd = (if sint (ReceiveCount c) > 1
                                 then StatsSampleStandardDeviation L ls else 0),
                   MsgsPerSec = fdiv L (float64 L (sint successes)) (Seconds L duration),
                   RunResults.Duplicates = receivedSoFar st - ReceiveCount c\<rparr>))"

text \<open>
  The loop of lines 43 to 89 over what the channel \<^verbatim>\<open>received\<close> delivers, in order.
  On an exhausted channel \<^verbatim>\<open>m := <-received\<close> never returns.
\<close>

fun Run_loop ::
  "'f::{zero,linorder} lib \<Rightarrow> Client \<Rightarrow> int64 \<Rightarrow> loop_state \<Rightarrow> Message list
     \<Rightarrow> (loop_state, loop_state \<times> 'f RunResults) outcome" where
  "Run_loop L c duration st [] = Blocks st"
| "Run_loop L c duration st (m # ms) =
     (case capture c st m of
        Inl e \<Rightarrow> Panics e
      | Inr st1 \<Rightarrow>
          (let st2 = progress c st1
           in if sint (receivedSoFar st2) \<ge> sint (ReceiveCount c)
              then (case report L c duration st2 of
                      Inl e \<Rightarrow> Panics e
                    | Inr runResults \<Rightarrow> Returns (st2, runResults))
              else Run_loop L c duration st2 ms))"

text \<open>
  \<^verbatim>\<open>Run\<close>: \<^verbatim>\<open>make([]*Message, c.ReceiveCount)\<close> panics on a negative length; then the
  loop. Memory is not bounded in the model: \<^verbatim>\<open>make\<close> succeeds for every other length.
  The outcome \<open>Returns (st, r)\<close> holds the locals at the return and the record \<open>r\<close> sent
  on \<^verbatim>\<open>res\<close>.
\<close>

definition Run ::
  "'f::{zero,linorder} lib \<Rightarrow> Client \<Rightarrow> int64 \<Rightarrow> Message list
     \<Rightarrow> (loop_state, loop_state \<times> 'f RunResults) outcome" where
  "Run L c duration received =
     (if sint (ReceiveCount c) < 0 then Panics MakeSliceLenOutOfRange
      else Run_loop L c duration
             \<lparr>receivedMessages = replicate (nat (sint (ReceiveCount c))) None,
              receivedSoFar = 0, logged = []\<rparr>
             received)"

section \<open>The transport callback: \<^verbatim>\<open>onMessage\<close>\<close>

text \<open>
  An inbound MQTT publish as the callback sees it: the bytes of \<^verbatim>\<open>msg.Payload()\<close> and
  what \<^verbatim>\<open>time.Now().UnixNano()\<close> reads when the callback runs.
\<close>

record frame =
  body :: "8 word list"
  now :: int64

text \<open>
  Lines 99 to 111, on the pair of what has been sent on the channel \<^verbatim>\<open>received\<close> and
  what has been logged: a payload that does not decode is logged, any other is sent.
\<close>

definition onMessage ::
  "'f lib \<Rightarrow> Client \<Rightarrow> Message list \<times> log_entry list \<Rightarrow> frame
     \<Rightarrow> Message list \<times> log_entry list" where
  "onMessage L c s msg =
     (case Unmarshal L (body msg) of
        Inl err \<Rightarrow> (fst s, snd s @ [UnmarshalFailed (ID c) err])
      | Inr payload \<Rightarrow> (fst s @ [\<lparr>Payload = payload, ReceivedAt = now msg\<rparr>], snd s))"

text \<open>
  The MQTT client calls the handler once for each inbound publish, in order. What
  \<^verbatim>\<open>receiveMessages\<close> does besides installing the handler (connect, subscribe, log the
  errors of both) happens in the MQTT library and is not modelled.
\<close>

definition receiveMessages ::
  "'f lib \<Rightarrow> Client \<Rightarrow> frame list \<Rightarrow> Message list \<times> log_entry list" where
  "receiveMessages L c frames = foldl (onMessage L c) ([], []) frames"

section \<open>The collector of \<^verbatim>\<open>main\<close>\<close>

text \<open>
  Lines 120 to 123: \<^verbatim>\<open>results[i] = <-resCh\<close> for \<open>i\<close> from 0 up to \<^verbatim>\<open>*clients\<close>, over what
  the channel \<^verbatim>\<open>resCh\<close> delivers, in the order of arrival.
\<close>

function collect_loop ::
  "int \<Rightarrow> int \<Rightarrow> 'r option list \<Rightarrow> 'r list \<Rightarrow> ('r option list, 'r option list) outcome" where
  "collect_loop clients i results resCh =
     (if i < clients
      then (case resCh of
              [] \<Rightarrow> Blocks results
            | r # rest \<Rightarrow>
                (if 0 \<le> i \<and> nat i < length results
                 then collect_loop clients (i + 1) (results[nat i := Some r]) rest
                 else Panics IndexOutOfRange))
      else Returns results)"
  by pat_completeness auto
termination
  by (relation "measure (\<lambda>(clients, i, results, resCh). nat (clients - i))") auto

declare collect_loop.simps [simp del]

definition collect :: "int \<Rightarrow> 'r list \<Rightarrow> ('r option list, 'r option list) outcome" where
  "collect clients resCh =
     (if clients < 0 then Panics MakeSliceLenOutOfRange
      else collect_loop clients 0 (replicate (nat clients) None) resCh)"

section \<open>States and results of the worker, for the statements below\<close>

text \<open>
  The state of the loop of \<^verbatim>\<open>Run\<close> after it has stored the messages \<open>stored\<close> and logged
  \<open>lg\<close>: the first slots hold the messages in the order of arrival, the others are
  still \<^verbatim>\<open>nil\<close>, and the counter is the number of messages stored.
\<close>

definition stored_state :: "Client \<Rightarrow> Message list \<Rightarrow> log_entry list \<Rightarrow> loop_state" where
  "stored_state c stored lg =
     \<lparr>receivedMessages =
        map Some stored @ replicate (nat (sint (ReceiveCount c)) - length stored) None,
      receivedSoFar = word_of_nat (length stored),
      logged = lg\<rparr>"

text \<open>The progress lines of the arrivals after the \<open>i\<close>-th, up to the \<open>k\<close>-th.\<close>

definition progress_lines :: "Client \<Rightarrow> nat \<Rightarrow> nat \<Rightarrow> log_entry list" where
  "progress_lines c i k =
     map (\<lambda>j. Progress (ID c) (word_of_nat j) (ReceiveCount c))
       (filter (\<lambda>j. j mod 100 = 0) [Suc i..<Suc k])"

text \<open>The record a worker sends when its slots hold the messages \<open>stored\<close>.\<close>

definition run_result ::
  "'f::{zero,linorder} lib \<Rightarrow> Client \<Rightarrow> int64 \<Rightarrow> Message list \<Rightarrow> 'f RunResults" where
  "run_result L c duration stored =
     \<lparr>RunResults.ID = ID c,
      RunResults.Successes = ReceiveCount c,
      RunTime = Seconds L duration,
      RunResults.MsgTimeMin = StatsMin L (map (latency L) stored),
      RunResults.MsgTimeMax = StatsMax L (map (latency L) stored),
      MsgTimeMean = StatsMean L (map (latency L) stored),
      MsgTimeStd = (if sint (ReceiveCount c) > 1
                    then StatsSampleStandardDeviation L (map (latency L) stored) else 0),
      MsgsPerSec = fdiv L (float64 L (sint (ReceiveCount c))) (Seconds L duration),
      RunResults.Duplicates = 0\<rparr>"

section \<open>Concrete inputs\<close>

text \<open>
  To run the model on concrete inputs its parameters need values. \<open>exact_lib\<close> computes
  on the reals without rounding: minimum, maximum, mean and sample standard deviation
  by their textbook formulas, a duration in seconds as nanoseconds over \<open>10\<^sup>9\<close>. Its
  decoder stands in for \<^verbatim>\<open>json.Unmarshal\<close>: it accepts the payloads of exactly three
  bytes, one byte for each field, and rejects every other.
\<close>

definition three_bytes :: "8 word list \<Rightarrow> string + Payload" where
  "three_bytes bs =
     (case bs of
        [g, c, m] \<Rightarrow> Inr \<lparr>GeneratedAt = ucast g, ClientId = uint c, MessageId = uint m\<rparr>
      | _ \<Rightarrow> Inl ''unexpected end of JSON input'')"

definition exact_lib :: "real lib" where
  "exact_lib =
     \<lparr>float64 = of_int, fadd = (+), fdiv = (/),
      Seconds = (\<lambda>d. of_int (sint d) / 1000000000),
      StatsMin = (\<lambda>xs. case xs of [] \<Rightarrow> 0 | x # ys \<Rightarrow> fold min ys x),
      StatsMax = (\<lambda>xs. case xs of [] \<Rightarrow> 0 | x # ys \<Rightarrow> fold max ys x),
      StatsMean = (\<lambda>xs. sum_list xs / of_nat (length xs)),
      StatsSampleStandardDeviation =
        (\<lambda>xs. sqrt (sum_list (map (\<lambda>x. (x - sum_list xs / of_nat (length xs))\<^sup>2) xs)
                      / of_nat (length xs - 1))),
      Unmarshal = three_bytes\<rparr>"

text \<open>
  The client that \<^verbatim>\<open>main\<close> builds for worker \<open>i\<close> from the default flags and
  \<^verbatim>\<open>-count n\<close>; a message by its two timestamps; a worker result by the fields that the
  aggregator sums and compares.
\<close>

definition client :: "int \<Rightarrow> int64 \<Rightarrow> Client" where
  "client i n =
     \<lparr>ID = i, ClientID = ''mqtt-benchmark'', MsgTopic = ''/test'', ReceiveCount = n,
      MsgQoS = 1, Quiet = False\<rparr>"

definition message :: "int64 \<Rightarrow> int64 \<Rightarrow> Message" where
  "message generated received =
     \<lparr>Payload = \<lparr>GeneratedAt = generated, ClientId = 0, MessageId = 0\<rparr>,
      ReceivedAt = received\<rparr>"

definition worker_result :: "int \<Rightarrow> int64 \<Rightarrow> int64 \<Rightarrow> real \<Rightarrow> real \<Rightarrow> real RunResults" where
  "worker_result i successes duplicates lo hi =
     \<lparr>RunResults.ID = i, RunResults.Successes = successes, RunTime = 2,
      RunResults.MsgTimeMin = lo, RunResults.MsgTimeMax = hi, MsgTimeMean = (lo + hi) / 2,
      MsgTimeStd = 0, MsgsPerSec = 50, RunResults.Duplicates = duplicates\<rparr>"

section \<open>The aggregator computes sums, extrema and means of the worker results\<close>

lemma range_body_ints:
  "TotalResults.Successes (totals (range_body L i res a)) =
     TotalResults.Successes (totals a) + RunResults.Successes res"
  "TotalResults.Duplicates (totals (range_body L i res a)) =
     TotalResults.Duplicates (totals a) + RunResults.Duplicates res"
  by (simp_all add: range_body_def Let_def)

lemma range_body_min_max:
  "TotalResults.MsgTimeMin (totals (range_body L i res a)) =
     min (TotalResults.MsgTimeMin (totals a)) (RunResults.MsgTimeMin res)"
  "TotalResults.MsgTimeMax (totals (range_body L i res a)) =
     max (TotalResults.MsgTimeMax (totals a)) (RunResults.MsgTimeMax res)"
  by (auto simp add: range_body_def Let_def min_def max_def)

lemma range_body_kept:
  "Ratio (totals (range_body L i res a)) = Ratio (totals a)"
  "TotalRunTime (totals (range_body L i res a)) = TotalRunTime (totals a)"
  "AvgRunTime (totals (range_body L i res a)) = AvgRunTime (totals a)"
  "MsgTimeMeanAvg (totals (range_body L i res a)) = MsgTimeMeanAvg (totals a)"
  "MsgTimeMeanStd (totals (range_body L i res a)) = MsgTimeMeanStd (totals a)"
  "AvgMsgsPerSec (totals (range_body L i res a)) = AvgMsgsPerSec (totals a)"
  "TotalMsgsPerSec (totals (range_body L i res a)) =
     fadd L (TotalMsgsPerSec (totals a)) (MsgsPerSec res)"
  by (simp_all add: range_body_def Let_def)

lemma range_body_arrays:
  "msgTimeMeans (range_body L i res a) = (msgTimeMeans a)[i := MsgTimeMean res]"
  "msgsPerSecs (range_body L i res a) = (msgsPerSecs a)[i := MsgsPerSec res]"
  "runTimes (range_body L i res a) = (runTimes a)[i := RunTime res]"
  "bws (range_body L i res a) = (bws a)[i := MsgsPerSec res]"
  by (simp_all add: range_body_def Let_def)

lemma range_results_ints:
  "TotalResults.Successes (totals (range_results L i rs a)) =
     TotalResults.Successes (totals a) + sum_list (map RunResults.Successes rs)"
  "TotalResults.Duplicates (totals (range_results L i rs a)) =
     TotalResults.Duplicates (totals a) + sum_list (map RunResults.Duplicates rs)"
  by (induction rs arbitrary: i a) (simp_all add: range_body_ints add.assoc)

lemma range_results_min:
  "TotalResults.MsgTimeMin (totals (range_results L i rs a)) =
     Min (insert (TotalResults.MsgTimeMin (totals a)) (RunResults.MsgTimeMin ` set rs))"
proof -
  have "TotalResults.MsgTimeMin (totals (range_results L i rs a)) =
          fold min (map RunResults.MsgTimeMin rs) (TotalResults.MsgTimeMin (totals a))"
    by (induction rs arbitrary: i a) (simp_all add: range_body_min_max min.commute)
  also have "\<dots> = Min (set (TotalResults.MsgTimeMin (totals a) # map RunResults.MsgTimeMin rs))"
    by (rule Min.set_eq_fold [symmetric])
  finally show ?thesis by simp
qed

lemma range_results_max:
  "TotalResults.MsgTimeMax (totals (range_results L i rs a)) =
     Max (insert (TotalResults.MsgTimeMax (totals a)) (RunResults.MsgTimeMax ` set rs))"
proof -
  have "TotalResults.MsgTimeMax (totals (range_results L i rs a)) =
          fold max (map RunResults.MsgTimeMax rs) (TotalResults.MsgTimeMax (totals a))"
    by (induction rs arbitrary: i a) (simp_all add: range_body_min_max max.commute)
  also have "\<dots> = Max (set (TotalResults.MsgTimeMax (totals a) # map RunResults.MsgTimeMax rs))"
    by (rule Max.set_eq_fold [symmetric])
  finally show ?thesis by simp
qed

lemma range_results_kept:
  "Ratio (totals (range_results L i rs a)) = Ratio (totals a)"
  "TotalRunTime (totals (range_results L i rs a)) = TotalRunTime (totals a)"
  "AvgRunTime (totals (range_results L i rs a)) = AvgRunTime (totals a)"
  "MsgTimeMeanAvg (totals (range_results L i rs a)) = MsgTimeMeanAvg (totals a)"
  "MsgTimeMeanStd (totals (range_results L i rs a)) = MsgTimeMeanStd (totals a)"
  "AvgMsgsPerSec (totals (range_results L i rs a)) = AvgMsgsPerSec (totals a)"
  "TotalMsgsPerSec (totals (range_results L i rs a)) =
     foldl (fadd L) (TotalMsgsPerSec (totals a)) (map MsgsPerSec rs)"
  by (induction rs arbitrary: i a) (simp_all add: range_body_kept)

text \<open>Writing \<open>v\<close> at index \<open>i\<close> extends the written prefix of an array by one.\<close>

lemma take_Suc_update:
  assumes "i < length xs"
  shows "take (Suc i) (xs[i := v]) = take i xs @ [v]"
  using assms by (simp add: take_Suc_conv_app_nth)

lemma range_results_arrays:
  "i + length rs \<le> length (msgTimeMeans a) \<Longrightarrow>
     msgTimeMeans (range_results L i rs a) =
       take i (msgTimeMeans a) @ map MsgTimeMean rs @ drop (i + length rs) (msgTimeMeans a)"
  "i + length rs \<le> length (msgsPerSecs a) \<Longrightarrow>
     msgsPerSecs (range_results L i rs a) =
       take i (msgsPerSecs a) @ map MsgsPerSec rs @ drop (i + length rs) (msgsPerSecs a)"
  "i + length rs \<le> length (runTimes a) \<Longrightarrow>
     runTimes (range_results L i rs a) =
       take i (runTimes a) @ map RunTime rs @ drop (i + length rs) (runTimes a)"
  "i + length rs \<le> length (bws a) \<Longrightarrow>
     bws (range_results L i rs a) =
       take i (bws a) @ map MsgsPerSec rs @ drop (i + length rs) (bws a)"
  by (induction rs arbitrary: i a)
     (simp_all add: range_body_arrays take_Suc_update)

text \<open>
  Every field of the record that \<^verbatim>\<open>calculateTotalResults\<close> returns for a non-empty
  slice. \<^verbatim>\<open>MsgTimeMin\<close> starts from the first worker's minimum; \<^verbatim>\<open>MsgTimeMax\<close> starts from
  the zero value of the new record, so it is the maximum of 0 and the workers' maxima.
\<close>

lemma calculateTotalResults_nonempty:
  assumes "results \<noteq> []"
  shows "calculateTotalResults L results totalTime sampleSize =
    Inr \<lparr>Ratio = 0,
         Successes = sum_list (map RunResults.Successes results),
         TotalRunTime = Seconds L totalTime,
         AvgRunTime = StatsMean L (map RunTime results),
         MsgTimeMin = Min (RunResults.MsgTimeMin ` set results),
         MsgTimeMax = Max (insert 0 (RunResults.MsgTimeMax ` set results)),
         MsgTimeMeanAvg = StatsMean L (map MsgTimeMean results),
         MsgTimeMeanStd =
           (if sampleSize > 1
            then StatsSampleStandardDeviation L (map MsgTimeMean results) else 0),
         TotalMsgsPerSec = foldl (fadd L) 0 (map MsgsPerSec results),
         AvgMsgsPerSec = StatsMean L (map MsgsPerSec results),
         Duplicates = sum_list (map RunResults.Duplicates results)\<rparr>"
proof -
  obtain r0 rest where rs: "results = r0 # rest"
    using assms by (cases results) auto
  define a0 :: "'a accum" where
    "a0 = \<lparr>totals = new_TotalResults\<lparr>TotalRunTime := Seconds L totalTime,
                TotalResults.MsgTimeMin := RunResults.MsgTimeMin r0\<rparr>,
            msgTimeMeans = replicate (length results) 0,
            msgsPerSecs = replicate (length results) 0,
            runTimes = replicate (length results) 0,
            bws = replicate (length results) 0\<rparr>"
  define a where "a = range_results L 0 results a0"
  define t1 where
    "t1 = (totals a)\<lparr>AvgMsgsPerSec := StatsMean L (msgsPerSecs a),
             AvgRunTime := StatsMean L (runTimes a),
             MsgTimeMeanAvg := StatsMean L (msgTimeMeans a)\<rparr>"
  have calc: "calculateTotalResults L results totalTime sampleSize =
      Inr (if sampleSize > 1
           then t1\<lparr>MsgTimeMeanStd := StatsSampleStandardDeviation L (msgTimeMeans a)\<rparr>
           else t1)"
    unfolding t1_def a_def a0_def calculateTotalResults_def Let_def
    by (simp only: rs list.case)
  have arrays: "msgTimeMeans a = map MsgTimeMean results"
    "msgsPerSecs a = map MsgsPerSec results" "runTimes a = map RunTime results"
    by (simp_all add: a_def a0_def range_results_arrays)
  have m: "insert (RunResults.MsgTimeMin r0) (RunResults.MsgTimeMin ` set results) =
           RunResults.MsgTimeMin ` set results"
    by (auto simp: rs)
  have fields:
    "Ratio (totals a) = 0"
    "TotalResults.Successes (totals a) = sum_list (map RunResults.Successes results)"
    "TotalRunTime (totals a) = Seconds L totalTime"
    "TotalResults.MsgTimeMin (totals a) = Min (RunResults.MsgTimeMin ` set results)"
    "TotalResults.MsgTimeMax (totals a) = Max (insert 0 (RunResults.MsgTimeMax ` set results))"
    "MsgTimeMeanStd (totals a) = 0"
    "TotalMsgsPerSec (totals a) = foldl (fadd L) 0 (map MsgsPerSec results)"
    "TotalResults.Duplicates (totals a) = sum_list (map RunResults.Duplicates results)"
    by (simp_all add: a_def a0_def range_results_ints range_results_min range_results_max
          range_results_kept new_TotalResults_def m)
  show ?thesis
    unfolding calc t1_def
    by (cases "sampleSize > 1") (simp_all add: TotalResults.equality fields arrays)
qed

lemma calculateTotalResults_empty:
  "calculateTotalResults L [] totalTime sampleSize = Inl IndexOutOfRange"
  by (simp add: calculateTotalResults_def)

text \<open>
  The value of an \<^verbatim>\<open>int64\<close> sum: the sum of the values, wrapped into the 64-bit range
  (\<open>signed_take_bit 63\<close> is the identity on \<open>- 2\<^sup>6\<^sup>3 \<dots> 2\<^sup>6\<^sup>3 - 1\<close>).
\<close>

lemma sint_sum_list_int64:
  "sint (sum_list ws :: int64) = signed_take_bit 63 (sum_list (map sint ws))"
proof (induction ws)
  case Nil
  show ?case by simp
next
  case (Cons w ws)
  have sw: "signed_take_bit 63 (sint w) = sint w"
    using sint_ge [of w] sint_lt [of w] by (simp add: signed_take_bit_int_eq_self)
  have "sint (w + sum_list ws) = signed_take_bit 63 (sint w + sint (sum_list ws))"
    by (simp add: sint_word_ariths)
  also have "\<dots> = signed_take_bit 63 (signed_take_bit 63 (sint w) +
                       signed_take_bit 63 (sum_list (map sint ws)))"
    by (simp only: Cons.IH sw)
  also have "\<dots> = signed_take_bit 63 (sint w + sum_list (map sint ws))"
    by (rule signed_take_bit_add)
  finally show ?case by simp
qed

text \<open>
  Claim C4. For every non-empty list of worker results the aggregate \<^verbatim>\<open>Successes\<close> is
  the sum of the workers' \<^verbatim>\<open>Successes\<close> and the aggregate \<^verbatim>\<open>Duplicates\<close> is the sum of
  the workers' \<^verbatim>\<open>Duplicates\<close>. The sums are \<^verbatim>\<open>int64\<close> sums, as the fields are; read as
  integers they are the sums of the values wrapped into 64 bits. Three results with
  successes 100, 100, 100 and duplicates 0, 2, 1 give 300 and 3.
\<close>

theorem calculateTotalResults_sums:
  assumes "results \<noteq> []"
  shows "\<exists>t. calculateTotalResults L results totalTime sampleSize = Inr t \<and>
           TotalResults.Successes t = sum_list (map RunResults.Successes results) \<and>
           TotalResults.Duplicates t = sum_list (map RunResults.Duplicates results) \<and>
           sint (TotalResults.Successes t) =
             signed_take_bit 63 (\<Sum>r\<leftarrow>results. sint (RunResults.Successes r)) \<and>
           sint (TotalResults.Duplicates t) =
             signed_take_bit 63 (\<Sum>r\<leftarrow>results. sint (RunResults.Duplicates r))"
  by (simp add: calculateTotalResults_nonempty [OF assms] sint_sum_list_int64 comp_def)

theorem calculateTotalResults_sums_witness:
  "[worker_result 0 100 0 10 30, worker_result 1 100 2 10 30, worker_result 2 100 1 10 30] \<noteq> [] \<and>
   (\<exists>t. calculateTotalResults exact_lib
          [worker_result 0 100 0 10 30, worker_result 1 100 2 10 30,
           worker_result 2 100 1 10 30] 1000000000 3 = Inr t \<and>
        TotalResults.Successes t = 300 \<and> TotalResults.Duplicates t = 3 \<and>
        sint (TotalResults.Successes t) = 300 \<and> sint (TotalResults.Duplicates t) = 3)"
  using calculateTotalResults_sums
    [of "[worker_result 0 100 0 10 30, worker_result 1 100 2 10 30,
          worker_result 2 100 1 10 30]" exact_lib 1000000000 3]
  by (auto simp add: worker_result_def)

text \<open>
  Claim C6. The aggregate \<^verbatim>\<open>MsgTimeMeanStd\<close> is what
  \<^verbatim>\<open>stats.StatsSampleStandardDeviation\<close> returns on the workers' \<^verbatim>\<open>MsgTimeMean\<close> values, in
  the order of the slice, when \<^verbatim>\<open>sampleSize > 1\<close>, and the zero value otherwise, so
  exactly 0 when \<^verbatim>\<open>sampleSize\<close> is 1.
\<close>

theorem calculateTotalResults_MsgTimeMeanStd:
  assumes "results \<noteq> []"
  shows "\<exists>t. calculateTotalResults L results totalTime sampleSize = Inr t \<and>
           MsgTimeMeanStd t =
             (if sampleSize > 1
              then StatsSampleStandardDeviation L (map MsgTimeMean results) else 0)"
  by (simp add: calculateTotalResults_nonempty [OF assms])

theorem calculateTotalResults_MsgTimeMeanStd_witness:
  "[worker_result 0 100 0 10 30] \<noteq> [] \<and>
   (\<exists>t. calculateTotalResults exact_lib [worker_result 0 100 0 10 30] 3000000000 1 = Inr t \<and>
        MsgTimeMeanStd t = 0)"
  using calculateTotalResults_MsgTimeMeanStd
    [of "[worker_result 0 100 0 10 30]" exact_lib 3000000000 1]
  by simp

text \<open>
  Claim C10. For every non-empty list of worker results, every total time and every
  sample size, the \<^verbatim>\<open>Ratio\<close> field of the aggregate is 0: the zero value of
  \<^verbatim>\<open>new(TotalResults)\<close>, which no statement of the aggregator assigns.
\<close>

theorem calculateTotalResults_Ratio:
  assumes "results \<noteq> []"
  shows "\<exists>t. calculateTotalResults L results totalTime sampleSize = Inr t \<and> Ratio t = 0"
  by (simp add: calculateTotalResults_nonempty [OF assms])

theorem calculateTotalResults_Ratio_witness:
  "[worker_result 0 100 0 10 30, worker_result 1 100 2 20 40] \<noteq> [] \<and>
   (\<exists>t. calculateTotalResults exact_lib
          [worker_result 0 100 0 10 30, worker_result 1 100 2 20 40] 3000000000 2 = Inr t \<and>
        Ratio t = 0)"
  using calculateTotalResults_Ratio
    [of "[worker_result 0 100 0 10 30, worker_result 1 100 2 20 40]" exact_lib 3000000000 2]
  by simp

section \<open>The worker stores the first \<^verbatim>\<open>ReceiveCount\<close> messages and returns\<close>

text \<open>A counter below \<open>2\<^sup>6\<^sup>3\<close> has not wrapped: its signed value is the count.\<close>

lemma sint_of_nat_int64:
  assumes "k < 2 ^ 63"
  shows "sint (word_of_nat k :: int64) = int k"
proof -
  have "int k < 2 ^ 63"
    using assms by (metis of_nat_less_iff of_nat_numeral of_nat_power)
  then show ?thesis
    by (simp add: signed_of_nat signed_take_bit_int_eq_self)
qed

lemma nat_sint_int64_less: "nat (sint (w :: int64)) < 2 ^ 63"
  using sint_lt [of w] by (simp add: nat_less_iff)

lemma of_nat_nat_sint_int64:
  assumes "0 \<le> sint (w :: int64)"
  shows "word_of_nat (nat (sint w)) = w"
proof -
  have "(word_of_nat (nat (sint w)) :: int64) = word_of_int (sint w)"
    using assms by (metis of_nat_nat)
  then show ?thesis by simp
qed

lemma slots_update:
  "0 < j \<Longrightarrow>
   (map Some stored @ replicate j None)[length stored := Some m] =
     map Some (stored @ [m]) @ replicate (j - 1) None"
  by (cases j) (simp_all add: list_update_append)

lemma latencies_stored: "latencies L (map Some ms) = Inr (map (latency L) ms)"
  by (induction ms) simp_all

lemma progress_lines_same: "progress_lines c k k = []"
  by (simp add: progress_lines_def)

lemma progress_lines_step:
  "i < k \<Longrightarrow>
   progress_lines c i k =
     (if Suc i mod 100 = 0 then [Progress (ID c) (word_of_nat (Suc i)) (ReceiveCount c)] else [])
     @ progress_lines c (Suc i) k"
  by (simp add: progress_lines_def upt_conv_Cons del: upt_Suc of_nat_Suc)

lemma capture_stored:
  assumes "length stored < nat (sint (ReceiveCount c))"
  shows "capture c (stored_state c stored lg) m = Inr (stored_state c (stored @ [m]) lg)"
proof -
  have k: "length stored < 2 ^ 63"
    using assms nat_sint_int64_less [of "ReceiveCount c"] by linarith
  have s: "sint (word_of_nat (length stored) :: int64) = int (length stored)"
    by (rule sint_of_nat_int64 [OF k])
  have lt: "int (length stored) < sint (ReceiveCount c)"
    using assms by linarith
  show ?thesis
    using assms lt by (simp add: capture_def stored_state_def s slots_update)
qed

lemma sint_counter:
  assumes "length stored \<le> nat (sint (ReceiveCount c))"
  shows "sint (receivedSoFar (stored_state c stored lg)) = int (length stored)"
proof -
  have "length stored < 2 ^ 63"
    using assms nat_sint_int64_less [of "ReceiveCount c"] by linarith
  then show ?thesis
    by (simp add: stored_state_def sint_of_nat_int64 del: of_nat_Suc)
qed

lemma progress_stored:
  assumes "length stored \<le> nat (sint (ReceiveCount c))"
  shows "progress c (stored_state c stored lg) =
         stored_state c stored
           (lg @ (if length stored mod 100 = 0
                  then [Progress (ID c) (word_of_nat (length stored)) (ReceiveCount c)]
                  else []))"
proof -
  have "(int (length stored) mod 100 = 0) = (length stored mod 100 = 0)"
    by presburger
  then show ?thesis
    unfolding progress_def sint_counter [OF assms]
    by (simp add: stored_state_def)
qed

lemma report_stored:
  assumes "0 \<le> sint (ReceiveCount c)" "length stored = nat (sint (ReceiveCount c))"
  shows "report L c duration (stored_state c stored lg) = Inr (run_result L c duration stored)"
  using assms
  by (simp add: report_def run_result_def stored_state_def latencies_stored
        of_nat_nat_sint_int64 Let_def)

text \<open>
  The loop from a state that has stored fewer than \<^verbatim>\<open>ReceiveCount\<close> messages: it waits
  forever when the channel delivers too few, and otherwise returns at the arrival that
  fills the last slot, whatever the channel would deliver after it.
\<close>

lemma Run_loop_stored:
  assumes "length stored < nat (sint (ReceiveCount c))"
  shows "Run_loop L c duration (stored_state c stored lg) ms =
         (if length stored + length ms < nat (sint (ReceiveCount c))
          then Blocks (stored_state c (stored @ ms)
                 (lg @ progress_lines c (length stored) (length stored + length ms)))
          else Returns
                 (stored_state c
                    (stored @ take (nat (sint (ReceiveCount c)) - length stored) ms)
                    (lg @ progress_lines c (length stored) (nat (sint (ReceiveCount c)))),
                  run_result L c duration
                    (stored @ take (nat (sint (ReceiveCount c)) - length stored) ms)))"
  using assms
proof (induction ms arbitrary: stored lg)
  case Nil
  then show ?case by (simp add: progress_lines_same)
next
  case (Cons m ms)
  define N where "N = nat (sint (ReceiveCount c))"
  define lg' where
    "lg' = lg @ (if Suc (length stored) mod 100 = 0
                 then [Progress (ID c) (word_of_nat (Suc (length stored))) (ReceiveCount c)]
                 else [])"
  have N: "0 < sint (ReceiveCount c)" "length stored < N" "sint (ReceiveCount c) = int N"
    using Cons.prems by (auto simp: N_def)
  have le: "length (stored @ [m]) \<le> nat (sint (ReceiveCount c))"
    using Cons.prems by simp
  have P: "progress c (stored_state c (stored @ [m]) lg) = stored_state c (stored @ [m]) lg'"
    using progress_stored [OF le, of lg] by (simp add: lg'_def del: of_nat_Suc)
  have S: "sint (receivedSoFar (stored_state c (stored @ [m]) lg')) = int (Suc (length stored))"
    using sint_counter [OF le, of lg'] by simp
  have step: "Run_loop L c duration (stored_state c stored lg) (m # ms) =
      (if N \<le> Suc (length stored)
       then (case report L c duration (stored_state c (stored @ [m]) lg') of
               Inl e \<Rightarrow> Panics e
             | Inr r \<Rightarrow> Returns (stored_state c (stored @ [m]) lg', r))
       else Run_loop L c duration (stored_state c (stored @ [m]) lg') ms)"
    by (simp only: Run_loop.simps capture_stored [OF Cons.prems] sum.case Let_def P S N(3)
          of_nat_le_iff)
  show ?case
  proof (cases "N \<le> Suc (length stored)")
    case True
    then have eq: "N = Suc (length stored)"
      using N by simp
    have full: "length (stored @ [m]) = nat (sint (ReceiveCount c))"
      using eq by (simp add: N_def)
    have lines: "lg @ progress_lines c (length stored) N = lg'"
      using progress_lines_step [of "length stored" N c]
      by (simp add: eq lg'_def progress_lines_same del: of_nat_Suc)
    show ?thesis
      unfolding step
      using True N(1) report_stored [OF _ full, of L duration lg']
      by (simp add: N_def [symmetric] lines) (simp add: eq)
  next
    case False
    then have lt: "length (stored @ [m]) < nat (sint (ReceiveCount c))"
      by (simp add: N_def)
    have lines: "lg' @ progress_lines c (Suc (length stored)) k =
                 lg @ progress_lines c (length stored) k" if "length stored < k" for k
      using progress_lines_step [OF that, of c] by (simp add: lg'_def del: of_nat_Suc)
    have tk: "take (N - length stored) (m # ms) = m # take (N - Suc (length stored)) ms"
    proof -
      have "N - length stored = Suc (N - Suc (length stored))"
        using N(2) by simp
      then show ?thesis by simp
    qed
    show ?thesis
      unfolding step
      using False Cons.IH [OF lt, of lg'] N(2)
      by (simp add: N_def [symmetric] lines tk)
  qed
qed

text \<open>
  \<^verbatim>\<open>Run\<close> with a positive \<^verbatim>\<open>ReceiveCount\<close>, on everything the channel can deliver.
\<close>

lemma Run_outcome:
  assumes "0 < sint (ReceiveCount c)"
  shows "Run L c duration received =
         (if length received < nat (sint (ReceiveCount c))
          then Blocks (stored_state c received (progress_lines c 0 (length received)))
          else Returns
                 (stored_state c (take (nat (sint (ReceiveCount c))) received)
                    (progress_lines c 0 (nat (sint (ReceiveCount c)))),
                  run_result L c duration (take (nat (sint (ReceiveCount c))) received)))"
proof -
  have pos: "length ([] :: Message list) < nat (sint (ReceiveCount c))"
    using assms by simp
  have init: "\<lparr>receivedMessages = replicate (nat (sint (ReceiveCount c))) None,
               receivedSoFar = 0, logged = []\<rparr> = stored_state c [] []"
    by (simp add: stored_state_def)
  show ?thesis
    using assms Run_loop_stored [OF pos, of L duration "[]" received]
    by (simp add: Run_def init)
qed

text \<open>
  With \<^verbatim>\<open>ReceiveCount\<close> 0, which \<^verbatim>\<open>main\<close> rejects, the first arrival takes the branch
  of line 49 and ends the loop; with a negative one \<^verbatim>\<open>make\<close> panics.
\<close>

lemma Run_zero:
  assumes "ReceiveCount c = 0"
  shows "Run L c duration (m # ms) =
         Returns (\<lparr>receivedMessages = [], receivedSoFar = 1,
                   logged = [TooManyMessages (ID c) m]\<rparr>,
                  (run_result L c duration [])\<lparr>RunResults.Duplicates := 1\<rparr>)"
  using assms
  by (simp add: Run_def capture_def progress_def report_def run_result_def)

lemma Run_negative:
  assumes "sint (ReceiveCount c) < 0"
  shows "Run L c duration received = Panics MakeSliceLenOutOfRange"
  using assms by (simp add: Run_def)

text \<open>Line 39: a result carries the id of the worker that sent it.\<close>

lemma Run_ID:
  assumes "0 < sint (ReceiveCount c)" and "Run L c duration received = Returns (st, r)"
  shows "RunResults.ID r = ID c"
proof -
  have "r = run_result L c duration (take (nat (sint (ReceiveCount c))) received)"
    using assms(2) by (simp add: Run_outcome [OF assms(1)] split: if_splits)
  then show ?thesis
    by (simp add: run_result_def)
qed

text \<open>
  Claim C2. For every \<^verbatim>\<open>ReceiveCount\<close> \<open>N > 0\<close>, a worker whose channel delivers exactly
  \<open>N\<close> messages returns, and its result has \<^verbatim>\<open>Successes\<close> \<open>= N\<close> and \<^verbatim>\<open>Duplicates\<close> \<open>= 0\<close>.
  At the return every slot holds a message, in the order of arrival, and the counter
  is \<open>N\<close>.
\<close>

theorem Run_exact_count:
  assumes "0 < sint (ReceiveCount c)" and "int (length received) = sint (ReceiveCount c)"
  shows "\<exists>st r. Run L c duration received = Returns (st, r) \<and>
           RunResults.Successes r = ReceiveCount c \<and>
           sint (RunResults.Successes r) = int (length received) \<and>
           RunResults.Duplicates r = 0 \<and>
           receivedMessages st = map Some received \<and>
           receivedSoFar st = ReceiveCount c"
proof -
  have n: "nat (sint (ReceiveCount c)) = length received"
    using assms by linarith
  show ?thesis
    using assms(2)
    by (simp add: Run_outcome [OF assms(1)] n run_result_def stored_state_def
          of_nat_nat_sint_int64 [of "ReceiveCount c", unfolded n])
qed

theorem Run_exact_count_witness:
  "0 < sint (ReceiveCount (client 0 2)) \<and>
   int (length [message 10 30, message 20 50]) = sint (ReceiveCount (client 0 2)) \<and>
   (\<exists>st r. Run exact_lib (client 0 2) 5 [message 10 30, message 20 50] = Returns (st, r) \<and>
      RunResults.Successes r = 2 \<and> RunResults.Duplicates r = 0 \<and>
      receivedMessages st = [Some (message 10 30), Some (message 20 50)] \<and>
      receivedSoFar st = 2)"
  using Run_exact_count [of "client 0 2" "[message 10 30, message 20 50]" exact_lib 5]
  by (auto simp add: client_def)

text \<open>
  The latency of a message (line 69) in integers: the difference of the two
  timestamps, wrapped into the 64-bit range as the \<^verbatim>\<open>int64\<close> subtraction wraps it, then
  converted. \<open>signed_take_bit 63\<close> is the identity on \<open>- 2\<^sup>6\<^sup>3 \<dots> 2\<^sup>6\<^sup>3 - 1\<close>, so the latency is
  the exact difference whenever that fits in an \<^verbatim>\<open>int64\<close>.
\<close>

lemma latency_int:
  "latency L m =
     float64 L (signed_take_bit 63 (sint (ReceivedAt m) - sint (GeneratedAt (Payload m))))"
  by (simp add: latency_def sint_word_ariths)

text \<open>
  Claim C5. The result of a worker that has received its \<^verbatim>\<open>ReceiveCount\<close> messages has
  \<^verbatim>\<open>MsgTimeStd\<close> equal to what \<^verbatim>\<open>stats.StatsSampleStandardDeviation\<close> returns on its latency
  sample set when \<^verbatim>\<open>ReceiveCount > 1\<close>, and equal to the zero value, exactly 0, when
  \<^verbatim>\<open>ReceiveCount\<close> is 1. The sample set has one latency for each of the first
  \<^verbatim>\<open>ReceiveCount\<close> messages, in the order of arrival: \<^verbatim>\<open>ReceivedAt\<close> minus
  \<^verbatim>\<open>Payload.GeneratedAt\<close>, wrapped into 64 bits and converted to \<^verbatim>\<open>float64\<close>; where no
  difference leaves the \<^verbatim>\<open>int64\<close> range it is the list of the exact differences.
\<close>

theorem Run_MsgTimeStd:
  assumes "0 < sint (ReceiveCount c)" and "sint (ReceiveCount c) \<le> int (length received)"
  shows "\<exists>st r. Run L c duration received = Returns (st, r) \<and>
           receivedMessages st = map Some (take (nat (sint (ReceiveCount c))) received) \<and>
           MsgTimeStd r =
             (if 1 < sint (ReceiveCount c)
              then StatsSampleStandardDeviation L
                     (map (\<lambda>m. float64 L (signed_take_bit 63
                                   (sint (ReceivedAt m) - sint (GeneratedAt (Payload m)))))
                        (take (nat (sint (ReceiveCount c))) received))
              else 0) \<and>
           ((\<forall>m \<in> set (take (nat (sint (ReceiveCount c))) received).
               - (2 ^ 63) \<le> sint (ReceivedAt m) - sint (GeneratedAt (Payload m)) \<and>
               sint (ReceivedAt m) - sint (GeneratedAt (Payload m)) < 2 ^ 63) \<longrightarrow>
            1 < sint (ReceiveCount c) \<longrightarrow>
            MsgTimeStd r =
              StatsSampleStandardDeviation L
                (map (\<lambda>m. float64 L (sint (ReceivedAt m) - sint (GeneratedAt (Payload m))))
                   (take (nat (sint (ReceiveCount c))) received)))"
proof -
  have n: "\<not> length received < nat (sint (ReceiveCount c))"
    "length (take (nat (sint (ReceiveCount c))) received) = nat (sint (ReceiveCount c))"
    using assms by simp_all
  have l: "latency L = (\<lambda>m. float64 L (signed_take_bit 63
                                   (sint (ReceivedAt m) - sint (GeneratedAt (Payload m)))))"
    by (rule ext) (rule latency_int)
  have exact: "map (\<lambda>m. float64 L (signed_take_bit 63
                                   (sint (ReceivedAt m) - sint (GeneratedAt (Payload m))))) ms =
               map (\<lambda>m. float64 L (sint (ReceivedAt m) - sint (GeneratedAt (Payload m)))) ms"
    if "\<forall>m \<in> set ms.
               - (2 ^ 63) \<le> sint (ReceivedAt m) - sint (GeneratedAt (Payload m)) \<and>
               sint (ReceivedAt m) - sint (GeneratedAt (Payload m)) < 2 ^ 63" for ms
    using that by (simp add: signed_take_bit_int_eq_self)
  define stored where "stored = take (nat (sint (ReceiveCount c))) received"
  have run: "Run L c duration received =
               Returns (stored_state c stored (progress_lines c 0 (nat (sint (ReceiveCount c)))),
                        run_result L c duration stored)"
    using n by (simp add: Run_outcome [OF assms(1)] stored_def)
  have slots: "receivedMessages
                 (stored_state c stored (progress_lines c 0 (nat (sint (ReceiveCount c))))) =
               map Some stored"
    using n by (simp add: stored_state_def stored_def)
  have std: "MsgTimeStd (run_result L c duration stored) =
               (if 1 < sint (ReceiveCount c)
                then StatsSampleStandardDeviation L
                       (map (\<lambda>m. float64 L (signed_take_bit 63
                                     (sint (ReceivedAt m) - sint (GeneratedAt (Payload m)))))
                          stored)
                else 0)"
    by (simp add: run_result_def l)
  have fits: "MsgTimeStd (run_result L c duration stored) =
                StatsSampleStandardDeviation L
                  (map (\<lambda>m. float64 L (sint (ReceivedAt m) - sint (GeneratedAt (Payload m))))
                     stored)"
    if "\<forall>m \<in> set stored.
               - (2 ^ 63) \<le> sint (ReceivedAt m) - sint (GeneratedAt (Payload m)) \<and>
               sint (ReceivedAt m) - sint (GeneratedAt (Payload m)) < 2 ^ 63"
      and "1 < sint (ReceiveCount c)"
    using that(2) by (simp only: std if_True exact [OF that(1)])
  show ?thesis
    unfolding stored_def [symmetric]
    using run slots std fits by blast
qed

theorem Run_MsgTimeStd_witness:
  "(\<exists>st r. Run exact_lib (client 0 3) 5 [message 5 15, message 10 30, message 20 50] =
        Returns (st, r) \<and> MsgTimeStd r = 10) \<and>
   (\<exists>st r. Run exact_lib (client 0 1) 5 [message 10 30] = Returns (st, r) \<and> MsgTimeStd r = 0)"
proof -
  have s: "sqrt 100 = 10"
    using real_sqrt_abs [of 10] by simp
  have three: "\<exists>st r. Run exact_lib (client 0 3) 5 [message 5 15, message 10 30, message 20 50] =
        Returns (st, r) \<and> MsgTimeStd r = 10"
    using Run_MsgTimeStd [of "client 0 3" "[message 5 15, message 10 30, message 20 50]"
        exact_lib 5]
    by (auto simp add: client_def message_def exact_lib_def s)
  have one: "\<exists>st r. Run exact_lib (client 0 1) 5 [message 10 30] = Returns (st, r) \<and>
        MsgTimeStd r = 0"
    using Run_MsgTimeStd [of "client 0 1" "[message 10 30]" exact_lib 5]
    by (auto simp add: client_def)
  show ?thesis
    using three one by simp
qed

text \<open>
  What the channel would deliver after the \<^verbatim>\<open>ReceiveCount\<close>-th message does not reach the
  worker: it has returned. So no result of a worker with a positive \<^verbatim>\<open>ReceiveCount\<close>
  counts a duplicate, and line 49 never logs.
\<close>

lemma Run_surplus:
  assumes "0 < sint (ReceiveCount c)" and "sint (ReceiveCount c) \<le> int (length received)"
  shows "Run L c duration (received @ surplus) = Run L c duration received"
    and "\<exists>st r. Run L c duration (received @ surplus) = Returns (st, r) \<and>
           RunResults.Duplicates r = 0 \<and>
           (\<forall>m. TooManyMessages (ID c) m \<notin> set (logged st))"
proof -
  have n: "nat (sint (ReceiveCount c)) \<le> length received"
    using assms by linarith
  show "Run L c duration (received @ surplus) = Run L c duration received"
    using n by (simp add: Run_outcome [OF assms(1)])
  show "\<exists>st r. Run L c duration (received @ surplus) = Returns (st, r) \<and>
           RunResults.Duplicates r = 0 \<and>
           (\<forall>m. TooManyMessages (ID c) m \<notin> set (logged st))"
    using n
    by (auto simp add: Run_outcome [OF assms(1)] run_result_def stored_state_def
          progress_lines_def)
qed

text \<open>
  Claim C1 says that a worker with \<^verbatim>\<open>ReceiveCount\<close> \<open>N > 0\<close> whose channel delivers
  \<open>N + K\<close> messages reports \<^verbatim>\<open>Duplicates\<close> \<open>= K\<close>. The code at \<open>N = 1\<close>, \<open>K = 1\<close>: the
  worker returns at the first arrival with \<^verbatim>\<open>receivedSoFar\<close> 1 and \<^verbatim>\<open>Duplicates\<close> 0; the
  second message is neither counted nor logged.
\<close>

theorem Run_surplus_not_counted:
  "\<exists>st r. Run exact_lib (client 0 1) 5 [message 10 30, message 10 30] = Returns (st, r) \<and>
     receivedMessages st = [Some (message 10 30)] \<and>
     receivedSoFar st = 1 \<and>
     logged st = [] \<and>
     RunResults.Successes r = 1 \<and>
     RunResults.Duplicates r = 0"
proof -
  have "0 < sint (ReceiveCount (client 0 1))"
    by (simp add: client_def)
  then show ?thesis
    by (simp add: Run_outcome run_result_def stored_state_def progress_lines_def client_def)
qed

text \<open>
  Claim C3 says that the aggregate \<^verbatim>\<open>MsgTimeMin\<close> is the minimum of the workers' minima and
  the aggregate \<^verbatim>\<open>MsgTimeMax\<close> the maximum of the workers' maxima, also for negative
  latencies. The code on one worker whose only message was generated at time 30 and
  received at time 25, a latency of -5: the worker reports minimum and maximum -5, and
  the aggregate has \<^verbatim>\<open>MsgTimeMin\<close> -5 but \<^verbatim>\<open>MsgTimeMax\<close> 0.
\<close>

theorem skewed_MsgTimeMax:
  "\<exists>st r t. Run exact_lib (client 0 1) 5 [message 30 25] = Returns (st, r) \<and>
     RunResults.MsgTimeMin r = - 5 \<and>
     RunResults.MsgTimeMax r = - 5 \<and>
     calculateTotalResults exact_lib [r] 5 1 = Inr t \<and>
     TotalResults.MsgTimeMin t = - 5 \<and>
     TotalResults.MsgTimeMax t = 0"
proof -
  have "0 < sint (ReceiveCount (client 0 1))"
    by (simp add: client_def)
  then show ?thesis
    by (simp add: Run_outcome run_result_def calculateTotalResults_nonempty latency_def
          message_def exact_lib_def client_def)
qed

section \<open>The callback sends exactly the payloads that decode\<close>

lemma onMessage_fold:
  "foldl (onMessage L c) s frames =
     (fst s @ concat (map (\<lambda>f. case Unmarshal L (body f) of
                                  Inl err \<Rightarrow> []
                                | Inr payload \<Rightarrow> [\<lparr>Payload = payload, ReceivedAt = now f\<rparr>])
                       frames),
      snd s @ concat (map (\<lambda>f. case Unmarshal L (body f) of
                                  Inl err \<Rightarrow> [UnmarshalFailed (ID c) err]
                                | Inr payload \<Rightarrow> [])
                       frames))"
  by (induction frames arbitrary: s) (simp_all add: onMessage_def split: sum.splits)

text \<open>
  Claim C8. An inbound frame whose payload does not decode is logged and dropped: the
  callback sends nothing on the channel \<^verbatim>\<open>received\<close>, so the channel carries what it would
  carry had the frame never arrived, and the worker ends in the same outcome, with the
  same counter and the same slot array.
\<close>

theorem onMessage_malformed:
  assumes "Unmarshal L (body f) = Inl err"
  shows "onMessage L c (sent, lg) f = (sent, lg @ [UnmarshalFailed (ID c) err]) \<and>
         fst (receiveMessages L c (before @ f # after)) =
           fst (receiveMessages L c (before @ after)) \<and>
         Run L c duration (fst (receiveMessages L c (before @ f # after))) =
           Run L c duration (fst (receiveMessages L c (before @ after))) \<and>
         UnmarshalFailed (ID c) err \<in> set (snd (receiveMessages L c (before @ f # after)))"
  using assms by (simp add: onMessage_def receiveMessages_def onMessage_fold)

theorem onMessage_malformed_witness:
  "Unmarshal exact_lib (body \<lparr>body = [1, 2], now = 40\<rparr>) = Inl ''unexpected end of JSON input'' \<and>
   fst (receiveMessages exact_lib (client 0 3)
          ([\<lparr>body = [10, 0, 1], now = 30\<rparr>] @ \<lparr>body = [1, 2], now = 40\<rparr> #
           [\<lparr>body = [20, 0, 2], now = 50\<rparr>])) =
     [\<lparr>Payload = \<lparr>GeneratedAt = 10, ClientId = 0, MessageId = 1\<rparr>, ReceivedAt = 30\<rparr>,
      \<lparr>Payload = \<lparr>GeneratedAt = 20, ClientId = 0, MessageId = 2\<rparr>, ReceivedAt = 50\<rparr>] \<and>
   Run exact_lib (client 0 3) 5
     (fst (receiveMessages exact_lib (client 0 3)
          ([\<lparr>body = [10, 0, 1], now = 30\<rparr>] @ \<lparr>body = [1, 2], now = 40\<rparr> #
           [\<lparr>body = [20, 0, 2], now = 50\<rparr>]))) =
     Blocks \<lparr>receivedMessages =
              [Some \<lparr>Payload = \<lparr>GeneratedAt = 10, ClientId = 0, MessageId = 1\<rparr>,
                     ReceivedAt = 30\<rparr>,
               Some \<lparr>Payload = \<lparr>GeneratedAt = 20, ClientId = 0, MessageId = 2\<rparr>,
                     ReceivedAt = 50\<rparr>,
               None],
             receivedSoFar = 2, logged = []\<rparr>"
proof -
  have bad: "Unmarshal exact_lib (body \<lparr>body = [1, 2], now = 40\<rparr>) =
               Inl ''unexpected end of JSON input''"
    by (simp add: exact_lib_def three_bytes_def)
  have pos: "0 < sint (ReceiveCount (client 0 3))"
    by (simp add: client_def)
  have sent: "fst (receiveMessages exact_lib (client 0 3)
                ([\<lparr>body = [10, 0, 1], now = 30\<rparr>] @ [\<lparr>body = [20, 0, 2], now = 50\<rparr>])) =
     [\<lparr>Payload = \<lparr>GeneratedAt = 10, ClientId = 0, MessageId = 1\<rparr>, ReceivedAt = 30\<rparr>,
      \<lparr>Payload = \<lparr>GeneratedAt = 20, ClientId = 0, MessageId = 2\<rparr>, ReceivedAt = 50\<rparr>]"
    by (simp add: receiveMessages_def onMessage_def exact_lib_def three_bytes_def)
  have run: "Run exact_lib (client 0 3) 5
     [\<lparr>Payload = \<lparr>GeneratedAt = 10, ClientId = 0, MessageId = 1\<rparr>, ReceivedAt = 30\<rparr>,
      \<lparr>Payload = \<lparr>GeneratedAt = 20, ClientId = 0, MessageId = 2\<rparr>, ReceivedAt = 50\<rparr>] =
     Blocks \<lparr>receivedMessages =
              [Some \<lparr>Payload = \<lparr>GeneratedAt = 10, ClientId = 0, MessageId = 1\<rparr>,
                     ReceivedAt = 30\<rparr>,
               Some \<lparr>Payload = \<lparr>GeneratedAt = 20, ClientId = 0, MessageId = 2\<rparr>,
                     ReceivedAt = 50\<rparr>,
               None],
             receivedSoFar = 2, logged = []\<rparr>"
    by (simp add: Run_outcome [OF pos] stored_state_def progress_lines_def)
       (simp add: client_def)
  show ?thesis
    using onMessage_malformed [OF bad, of "client 0 3" "[]" "[]"
        "[\<lparr>body = [10, 0, 1], now = 30\<rparr>]" "[\<lparr>body = [20, 0, 2], now = 50\<rparr>]" 5]
    by (simp only: bad sent run simp_thms)
qed

section \<open>The aggregator on the heap computes the same record and changes no object\<close>

text \<open>
  What is read through a pointer stays the same when the heap grows; a pointer that
  cannot be read in a heap cannot be read after a \<^verbatim>\<open>TotalResults\<close> record is appended.
\<close>

lemma read_RunResults_grown:
  assumes "read_RunResults h p = Inr r"
  shows "read_RunResults (h @ new) p = Inr r"
  using assms
  by (auto simp add: read_RunResults_def nth_append split: option.splits if_splits)

lemma deref_all_grown:
  assumes "deref_all h ps = Inr rs"
  shows "deref_all (h @ new) ps = Inr rs"
  using assms
  by (induction ps arbitrary: rs) (auto simp add: read_RunResults_grown split: sum.splits)

lemma assign_new:
  "assign (length h) f (h @ [TotalResultsObj t], x) = Inr (h @ [TotalResultsObj (f t)], x)"
  by (simp add: assign_def read_TotalResults_def)

lemma reading_old:
  assumes "read_RunResults h res = Inr r"
  shows "reading res k (h @ new, x) = k r (h @ new, x)"
  by (simp add: reading_def read_RunResults_grown [OF assms])

lemma range_statements_body:
  assumes "read_RunResults h res = Inr r"
  shows "seq (range_statements L (length h) i res)
           (h @ [TotalResultsObj t], am, ap, ar, ab) =
         Inr (h @ [TotalResultsObj
                     (totals (range_body L i r
                        \<lparr>totals = t, msgTimeMeans = am, msgsPerSecs = ap,
                         runTimes = ar, bws = ab\<rparr>))],
              msgTimeMeans (range_body L i r
                        \<lparr>totals = t, msgTimeMeans = am, msgsPerSecs = ap,
                         runTimes = ar, bws = ab\<rparr>),
              msgsPerSecs (range_body L i r
                        \<lparr>totals = t, msgTimeMeans = am, msgsPerSecs = ap,
                         runTimes = ar, bws = ab\<rparr>),
              runTimes (range_body L i r
                        \<lparr>totals = t, msgTimeMeans = am, msgsPerSecs = ap,
                         runTimes = ar, bws = ab\<rparr>),
              bws (range_body L i r
                        \<lparr>totals = t, msgTimeMeans = am, msgsPerSecs = ap,
                         runTimes = ar, bws = ab\<rparr>))"
  by (simp add: range_statements_def reading_old [OF assms] assign_new range_body_def Let_def)

lemma accum_eta:
  "\<lparr>totals = totals a, msgTimeMeans = msgTimeMeans a, msgsPerSecs = msgsPerSecs a,
    runTimes = runTimes a, bws = bws a\<rparr> = a"
  by simp

lemma range_heap_results:
  assumes "deref_all h ps = Inr rs"
  shows "range_heap L (length h) i ps (h @ [TotalResultsObj t], am, ap, ar, ab) =
         Inr (h @ [TotalResultsObj
                     (totals (range_results L i rs
                        \<lparr>totals = t, msgTimeMeans = am, msgsPerSecs = ap,
                         runTimes = ar, bws = ab\<rparr>))],
              msgTimeMeans (range_results L i rs
                        \<lparr>totals = t, msgTimeMeans = am, msgsPerSecs = ap,
                         runTimes = ar, bws = ab\<rparr>),
              msgsPerSecs (range_results L i rs
                        \<lparr>totals = t, msgTimeMeans = am, msgsPerSecs = ap,
                         runTimes = ar, bws = ab\<rparr>),
              runTimes (range_results L i rs
                        \<lparr>totals = t, msgTimeMeans = am, msgsPerSecs = ap,
                         runTimes = ar, bws = ab\<rparr>),
              bws (range_results L i rs
                        \<lparr>totals = t, msgTimeMeans = am, msgsPerSecs = ap,
                         runTimes = ar, bws = ab\<rparr>))"
  using assms
proof (induction ps arbitrary: rs i t am ap ar ab)
  case Nil
  then show ?case by simp
next
  case (Cons p ps)
  obtain r rest where r: "read_RunResults h p = Inr r" "deref_all h ps = Inr rest" "rs = r # rest"
    using Cons.prems by (auto split: sum.splits)
  show ?case
    by (simp only: range_heap.simps range_statements_body [OF r(1)] sum.case r(3)
          range_results.simps Cons.IH [OF r(2)] accum_eta)
qed

lemma deref_all_length:
  assumes "deref_all h ps = Inr rs"
  shows "length rs = length ps"
  using assms by (induction ps arbitrary: rs) (auto split: sum.splits)

lemma calculateTotalResults_heap_refines:
  assumes "deref_all h results = Inr rs"
  shows "calculateTotalResults_heap L h results totalTime sampleSize =
         (case calculateTotalResults L rs totalTime sampleSize of
            Inl e \<Rightarrow> Inl (GoPanic e)
          | Inr t \<Rightarrow> Inr (length h, h @ [TotalResultsObj t]))"
proof (cases results)
  case Nil
  then have "rs = []"
    using assms by simp
  then show ?thesis
    by (simp add: Nil calculateTotalResults_heap_def calculateTotalResults_def assign_new)
next
  case (Cons res0 rest)
  obtain r0 rs' where r: "read_RunResults h res0 = Inr r0" "rs = r0 # rs'"
    using assms by (auto simp add: Cons split: sum.splits)
  have len: "length rs = length results"
    using deref_all_length [OF assms] by simp
  have loop: "range_heap L (length h) 0 (res0 # rest) (h @ [TotalResultsObj t], am, ap, ar, ab) =
         Inr (h @ [TotalResultsObj
                     (totals (range_results L 0 rs
                        \<lparr>totals = t, msgTimeMeans = am, msgsPerSecs = ap,
                         runTimes = ar, bws = ab\<rparr>))],
              msgTimeMeans (range_results L 0 rs
                        \<lparr>totals = t, msgTimeMeans = am, msgsPerSecs = ap,
                         runTimes = ar, bws = ab\<rparr>),
              msgsPerSecs (range_results L 0 rs
                        \<lparr>totals = t, msgTimeMeans = am, msgsPerSecs = ap,
                         runTimes = ar, bws = ab\<rparr>),
              runTimes (range_results L 0 rs
                        \<lparr>totals = t, msgTimeMeans = am, msgsPerSecs = ap,
                         runTimes = ar, bws = ab\<rparr>),
              bws (range_results L 0 rs
                        \<lparr>totals = t, msgTimeMeans = am, msgsPerSecs = ap,
                         runTimes = ar, bws = ab\<rparr>))" for t am ap ar ab
    using range_heap_results [OF assms, of L 0 t am ap ar ab] by (simp only: Cons)
  have closed: "calculateTotalResults L rs totalTime sampleSize =
      Inr (let a = range_results L 0 rs
                    \<lparr>totals = new_TotalResults\<lparr>TotalRunTime := Seconds L totalTime,
                        TotalResults.MsgTimeMin := RunResults.MsgTimeMin r0\<rparr>,
                     msgTimeMeans = replicate (length rs) 0,
                     msgsPerSecs = replicate (length rs) 0,
                     runTimes = replicate (length rs) 0,
                     bws = replicate (length rs) 0\<rparr>;
               t = (totals a)\<lparr>AvgMsgsPerSec := StatsMean L (msgsPerSecs a),
                     AvgRunTime := StatsMean L (runTimes a),
                     MsgTimeMeanAvg := StatsMean L (msgTimeMeans a)\<rparr>
           in if sampleSize > 1
              then t\<lparr>MsgTimeMeanStd := StatsSampleStandardDeviation L (msgTimeMeans a)\<rparr>
              else t)"
    unfolding calculateTotalResults_def Let_def
    by (simp only: r(2) list.case)
  show ?thesis
    unfolding closed
    by (simp add: calculateTotalResults_heap_def Cons len assign_new reading_old [OF r(1)]
          loop Let_def del: range_heap.simps)
qed

lemma read_RunResults_grown_fault:
  assumes "read_RunResults h p = Inl e"
  shows "read_RunResults (h @ [TotalResultsObj t]) p = Inl e"
  using assms
  by (auto simp add: read_RunResults_def nth_append less_Suc_eq
        split: option.splits if_splits obj.splits)

lemma reading_fault:
  assumes "read_RunResults h res = Inl e"
  shows "reading res k (h @ [TotalResultsObj t], x) = Inl e"
  by (simp add: reading_def read_RunResults_grown_fault [OF assms])

lemma range_heap_fault:
  assumes "deref_all h ps = Inl e"
  shows "range_heap L (length h) i ps (h @ [TotalResultsObj t], am, ap, ar, ab) = Inl e"
  using assms
proof (induction ps arbitrary: i t am ap ar ab)
  case Nil
  then show ?case by simp
next
  case (Cons p ps)
  show ?case
  proof (cases "read_RunResults h p")
    case (Inl e')
    then have "e' = e"
      using Cons.prems by simp
    then show ?thesis
      by (simp add: range_statements_def reading_fault [OF Inl])
  next
    case (Inr r)
    then have rest: "deref_all h ps = Inl e"
      using Cons.prems by (simp split: sum.splits)
    show ?thesis
      by (simp only: range_heap.simps range_statements_body [OF Inr] sum.case
            Cons.IH [OF rest])
  qed
qed

lemma calculateTotalResults_heap_fault:
  assumes "deref_all h results = Inl e"
  shows "calculateTotalResults_heap L h results totalTime sampleSize = Inl e"
proof (cases results)
  case Nil
  then show ?thesis using assms by simp
next
  case (Cons res0 rest)
  show ?thesis
  proof (cases "read_RunResults h res0")
    case (Inl e')
    then have "e' = e"
      using assms by (simp add: Cons)
    then show ?thesis
      by (simp add: calculateTotalResults_heap_def Cons assign_new reading_fault [OF Inl])
  next
    case (Inr r0)
    have loop: "range_heap L (length h) 0 (res0 # rest)
                  (h @ [TotalResultsObj t], am, ap, ar, ab) = Inl e" for t am ap ar ab
      using range_heap_fault [OF assms, of L 0 t am ap ar ab] by (simp only: Cons)
    show ?thesis
      by (simp add: calculateTotalResults_heap_def Cons assign_new reading_old [OF Inr]
            loop del: range_heap.simps)
  qed
qed

text \<open>
  Claim C7. \<^verbatim>\<open>calculateTotalResults\<close> is a function of its three inputs. On every heap and
  every slice of pointers its outcome is fixed by the worker results behind the
  pointers, the total time and the sample size: the fault of the first pointer that
  cannot be read, or the panic of the empty slice, or a pointer to a new record whose
  fields are those that the statements compute from these three. It changes no object
  that existed before the call, and a second call on the same arguments, on the heap
  that the first call left, returns a record equal to the first in every field.
\<close>

theorem calculateTotalResults_heap_deterministic:
  "calculateTotalResults_heap L h results totalTime sampleSize =
     (case deref_all h results of
        Inl e \<Rightarrow> Inl e
      | Inr rs \<Rightarrow>
          (case calculateTotalResults L rs totalTime sampleSize of
             Inl e \<Rightarrow> Inl (GoPanic e)
           | Inr t \<Rightarrow> Inr (length h, h @ [TotalResultsObj t]))) \<and>
   (\<forall>p m. calculateTotalResults_heap L h results totalTime sampleSize = Inr (p, m) \<longrightarrow>
      (\<exists>t. p = length h \<and> m = h @ [TotalResultsObj t] \<and>
           calculateTotalResults_heap L m results totalTime sampleSize =
             Inr (Suc p, m @ [TotalResultsObj t])))"
proof -
  have first: "calculateTotalResults_heap L h' results totalTime sampleSize =
     (case deref_all h' results of
        Inl e \<Rightarrow> Inl e
      | Inr rs \<Rightarrow>
          (case calculateTotalResults L rs totalTime sampleSize of
             Inl e \<Rightarrow> Inl (GoPanic e)
           | Inr t \<Rightarrow> Inr (length h', h' @ [TotalResultsObj t])))" for h'
  proof (cases "deref_all h' results")
    case (Inl e)
    then show ?thesis
      by (simp add: calculateTotalResults_heap_fault)
  next
    case (Inr rs)
    then show ?thesis
      by (simp add: calculateTotalResults_heap_refines)
  qed
  have second: "\<exists>t. p = length h \<and> m = h @ [TotalResultsObj t] \<and>
           calculateTotalResults_heap L m results totalTime sampleSize =
             Inr (Suc p, m @ [TotalResultsObj t])"
    if ret: "calculateTotalResults_heap L h results totalTime sampleSize = Inr (p, m)" for p m
  proof -
    obtain rs t where rs: "deref_all h results = Inr rs"
      and t: "calculateTotalResults L rs totalTime sampleSize = Inr t"
      and pm: "p = length h" "m = h @ [TotalResultsObj t]"
      using ret unfolding first [of h] by (auto split: sum.splits)
    have "deref_all m results = Inr rs"
      unfolding pm by (rule deref_all_grown [OF rs])
    then have "calculateTotalResults_heap L m results totalTime sampleSize =
                 Inr (length m, m @ [TotalResultsObj t])"
      by (simp add: first [of m] t)
    then show ?thesis
      using pm by simp
  qed
  show ?thesis
    using first [of h] second by blast
qed

theorem calculateTotalResults_heap_deterministic_witness:
  "\<exists>t. calculateTotalResults_heap exact_lib
          [RunResultsObj (worker_result 0 100 0 10 30),
           RunResultsObj (worker_result 1 100 2 20 40)] [Some 0, Some 1] 5 2 =
          Inr (2, [RunResultsObj (worker_result 0 100 0 10 30),
                   RunResultsObj (worker_result 1 100 2 20 40), TotalResultsObj t]) \<and>
        calculateTotalResults_heap exact_lib
          [RunResultsObj (worker_result 0 100 0 10 30),
           RunResultsObj (worker_result 1 100 2 20 40), TotalResultsObj t] [Some 0, Some 1] 5 2 =
          Inr (3, [RunResultsObj (worker_result 0 100 0 10 30),
                   RunResultsObj (worker_result 1 100 2 20 40),
                   TotalResultsObj t, TotalResultsObj t]) \<and>
        TotalResults.Successes t = 200 \<and> TotalResults.Duplicates t = 2 \<and>
        TotalResults.MsgTimeMin t = 10 \<and> TotalResults.MsgTimeMax t = 40"
proof -
  define h :: "real heap" where
    "h = [RunResultsObj (worker_result 0 100 0 10 30),
          RunResultsObj (worker_result 1 100 2 20 40)]"
  have d: "deref_all h [Some 0, Some 1] =
             Inr [worker_result 0 100 0 10 30, worker_result 1 100 2 20 40]"
    by (simp add: h_def read_RunResults_def)
  have v: "calculateTotalResults exact_lib
             [worker_result 0 100 0 10 30, worker_result 1 100 2 20 40] 5 2 = Inr t \<Longrightarrow>
           TotalResults.Successes t = 200 \<and> TotalResults.Duplicates t = 2 \<and>
           TotalResults.MsgTimeMin t = 10 \<and> TotalResults.MsgTimeMax t = 40" for t
    by (auto simp add: calculateTotalResults_nonempty worker_result_def)
  obtain t where t: "calculateTotalResults exact_lib
             [worker_result 0 100 0 10 30, worker_result 1 100 2 20 40] 5 2 = Inr t"
    using calculateTotalResults_nonempty
      [of "[worker_result 0 100 0 10 30, worker_result 1 100 2 20 40]" exact_lib 5 2]
    by blast
  note both = calculateTotalResults_heap_deterministic
    [of exact_lib h "[Some 0, Some 1]" 5 2, unfolded d sum.case t]
  have one: "calculateTotalResults_heap exact_lib h [Some 0, Some 1] 5 2 =
               Inr (length h, h @ [TotalResultsObj t])"
    using both by (rule conjunct1)
  obtain t' where t': "h @ [TotalResultsObj t] = h @ [TotalResultsObj t']"
    "calculateTotalResults_heap exact_lib (h @ [TotalResultsObj t]) [Some 0, Some 1] 5 2 =
       Inr (Suc (length h), (h @ [TotalResultsObj t]) @ [TotalResultsObj t'])"
    using both [THEN conjunct2, rule_format, OF one] by blast
  have same: "t' = t"
    using t'(1) by simp
  have two: "calculateTotalResults_heap exact_lib (h @ [TotalResultsObj t]) [Some 0, Some 1] 5 2 =
               Inr (Suc (length h), h @ [TotalResultsObj t, TotalResultsObj t])"
    using t'(2) by (simp add: same)
  have len: "length h = 2" "Suc (length h) = 3"
    by (simp_all add: h_def)
  show ?thesis
    using one two v [OF t] unfolding len unfolding h_def by (intro exI [of _ t]) simp
qed

section \<open>The collector keeps the results in the order of arrival\<close>

lemma collect_loop_outcome:
  assumes "0 \<le> i" and "i \<le> clients" and "length results = nat clients"
  shows "collect_loop clients i results resCh =
         (if length resCh < nat (clients - i)
          then Blocks (take (nat i) results @ map Some resCh @
                       drop (nat i + length resCh) results)
          else Returns (take (nat i) results @ map Some (take (nat (clients - i)) resCh)))"
  using assms
proof (induction resCh arbitrary: i results)
  case Nil
  then show ?case
    by (subst collect_loop.simps) (cases "i < clients", simp_all)
next
  case (Cons r rest)
  show ?case
  proof (cases "i < clients")
    case False
    then show ?thesis
      using Cons.prems by (subst collect_loop.simps) simp
  next
    case True
    have idx: "nat i < length results"
      using True Cons.prems by simp
    have n: "nat (i + 1) = Suc (nat i)" "nat (clients - i) = Suc (nat (clients - (i + 1)))"
      using True Cons.prems by simp_all
    have IH: "collect_loop clients (i + 1) (results[nat i := Some r]) rest =
         (if length rest < nat (clients - (i + 1))
          then Blocks (take (nat (i + 1)) (results[nat i := Some r]) @ map Some rest @
                       drop (nat (i + 1) + length rest) (results[nat i := Some r]))
          else Returns (take (nat (i + 1)) (results[nat i := Some r]) @
                        map Some (take (nat (clients - (i + 1))) rest)))"
      using True Cons.prems by (intro Cons.IH) simp_all
    have "collect_loop clients i results (r # rest) =
          collect_loop clients (i + 1) (results[nat i := Some r]) rest"
      using True idx Cons.prems by (subst collect_loop.simps) simp
    then show ?thesis
      using idx by (simp add: IH n take_Suc_update)
  qed
qed

lemma collect_outcome:
  assumes "0 \<le> clients"
  shows "collect clients resCh =
         (if length resCh < nat clients
          then Blocks (map Some resCh @ replicate (nat clients - length resCh) None)
          else Returns (map Some (take (nat clients) resCh)))"
  using assms collect_loop_outcome [of 0 clients "replicate (nat clients) None" resCh]
  by (simp add: collect_def)

text \<open>
  Claim C9, amended. For \<open>W \<ge> 1\<close> workers with the ids \<open>0, \<dots>, W - 1\<close> and every order in
  which their \<open>W\<close> results arrive, the collector returns once \<open>W\<close> results have
  arrived and waits as long as fewer have; the list it returns holds the results in
  the order of arrival: position \<open>k\<close> holds the \<open>k\<close>-th result that arrived, whatever
  worker sent it.
\<close>

theorem collect_arrival_order:
  assumes "1 \<le> clients"
    and "mset (map RunResults.ID arrivals) = mset (map int [0..<nat clients])"
  shows "collect clients arrivals = Returns (map Some arrivals) \<and>
         (\<forall>k<length arrivals.
            collect clients (take k arrivals) =
              Blocks (map Some (take k arrivals) @ replicate (nat clients - k) None))"
proof -
  have "size (mset (map RunResults.ID arrivals)) = size (mset (map int [0..<nat clients]))"
    using assms(2) by simp
  then have len: "length arrivals = nat clients"
    by simp
  have nonneg: "0 \<le> clients"
    using assms(1) by simp
  show ?thesis
    by (simp add: collect_outcome [OF nonneg] len min_def)
qed

theorem collect_arrival_order_witness:
  "collect 2 [worker_result 1 100 0 10 30, worker_result 0 100 0 10 30] =
     Returns [Some (worker_result 1 100 0 10 30), Some (worker_result 0 100 0 10 30)] \<and>
   collect 2 [worker_result 1 100 0 10 30] = Blocks [Some (worker_result 1 100 0 10 30), None]"
proof -
  have ids: "mset (map RunResults.ID [worker_result 1 100 0 10 30, worker_result 0 100 0 10 30 :: real RunResults]) =
             mset (map int [0..<nat 2])"
    by (simp add: worker_result_def upt_conv_Cons numeral_2_eq_2)
  have one: "(1::int) \<le> 2" by simp
  have k: "Suc 0 < length [worker_result 1 100 0 10 30, worker_result 0 100 0 10 30]"
    by simp
  show ?thesis
    using collect_arrival_order [OF one ids] k
    by (auto simp add: numeral_2_eq_2)
qed

text \<open>
  The list is not indexed by worker id: when worker 1 finishes before worker 0, position
  0 holds the result of worker 1.
\<close>

theorem collect_not_by_worker_id:
  "collect 2 [worker_result 1 100 0 10 30, worker_result 0 100 0 10 30] =
     Returns [Some (worker_result 1 100 0 10 30), Some (worker_result 0 100 0 10 30)] \<and>
   RunResults.ID (worker_result 1 100 0 10 30) = 1"
  by (simp add: collect_outcome worker_result_def)

end
